theory Spec2Isabelle
  imports Complex_Main "HOL-Library.AList" "HOL-Library.Word"
begin

section \<open>Data model (models.py)\<close>

text \<open>
  A \<open>uuid.UUID\<close> is a 128-bit value. Python's \<open>int\<close> is unbounded and becomes
  \<open>int\<close>; the \<open>float\<close> readings of the clock and the timestamps become \<open>real\<close>,
  and what float arithmetic computes on them is a parameter (\<open>float_ops\<close> below).
\<close>

type_synonym UUID = "128 word"

text \<open>
  Exceptions are values. \<open>is_Exception\<close> tells the classes below Python's
  \<open>Exception\<close> (what \<open>except Exception\<close> catches) from the ones that derive from
  \<open>BaseException\<close> only.
\<close>

datatype exn =
    ValueError
  | TimeoutError
  | ValidationError
  | OverflowError
  | OSError
  | RuntimeError
  | CancelledError
  | KeyboardInterrupt
  | SystemExit

fun is_Exception :: "exn \<Rightarrow> bool" where
  "is_Exception CancelledError = False"
| "is_Exception KeyboardInterrupt = False"
| "is_Exception SystemExit = False"
| "is_Exception _ = True"

text \<open>\<open>class TargetCreate(BaseModel)\<close>: name, interval, timeout.\<close>

record TargetCreate =
  name :: string
  interval :: int
  timeout :: int

text \<open>\<open>class Target(TargetCreate)\<close> adds the field \<open>id\<close> (here \<open>uid\<close>).\<close>

record Target = TargetCreate +
  uid :: UUID

text \<open>\<open>class TargetStatus(BaseModel)\<close>; \<open>TargetStatus()\<close> is \<open>TargetStatus_init\<close>.\<close>

record TargetStatus =
  last_check :: "real option"
  last_value :: "int option"
  check_count :: int
  error_count :: int

definition TargetStatus_init :: TargetStatus where
  "TargetStatus_init =
     \<lparr>last_check = None, last_value = None, check_count = 0, error_count = 0\<rparr>"

text \<open>
  \<open>class TargetResult(BaseModel)\<close>: the field \<open>value\<close> is \<open>result_value\<close> here;
  \<open>timestamp\<close> has the default factory \<open>lambda: 0.0\<close>.
\<close>

record TargetResult =
  target_id :: UUID
  result_value :: int
  timestamp :: real

definition TargetResult_init :: "UUID \<Rightarrow> int \<Rightarrow> TargetResult" where
  "TargetResult_init tid v = \<lparr>target_id = tid, result_value = v, timestamp = 0\<rparr>"

text \<open>
  The model validator \<open>check_interval\<close>, inherited by \<open>Target\<close>: it raises
  \<open>ValueError\<close>, which pydantic reports as a \<open>ValidationError\<close>.
\<close>

definition check_interval :: "'a TargetCreate_scheme \<Rightarrow> exn + 'a TargetCreate_scheme" where
  "check_interval self =
     (if interval self < timeout self then Inl ValidationError else Inr self)"

definition TargetCreate_init :: "string \<Rightarrow> int \<Rightarrow> int \<Rightarrow> exn + TargetCreate" where
  "TargetCreate_init n i t = check_interval \<lparr>name = n, interval = i, timeout = t\<rparr>"

text \<open>\<open>Target(**target_in.model_dump())\<close>; the id drawn by \<open>uuid4\<close> is an argument.\<close>

definition Target_init :: "TargetCreate \<Rightarrow> UUID \<Rightarrow> exn + Target" where
  "Target_init tc new_id =
     check_interval
       \<lparr>name = name tc, interval = interval tc, timeout = timeout tc, uid = new_id\<rparr>"

section \<open>The supervisor (core/manager.py)\<close>

text \<open>
  A Python \<open>dict\<close> keeps insertion order: it is an association list with distinct
  keys. \<open>d[k] = v\<close> is \<open>AList.update\<close> (in place, or appended), \<open>del d[k]\<close> is
  \<open>AList.delete\<close>, \<open>d.get(k)\<close> is \<open>map_of\<close>, \<open>k in d\<close> is \<open>has_key\<close>.
\<close>

definition has_key :: "('k \<times> 'v) list \<Rightarrow> 'k \<Rightarrow> bool" where
  "has_key d k = (k \<in> set (map fst d))"

text \<open>
  An \<open>asyncio.Event\<close> is shared between the supervisor and the task it was handed to:
  the events live in a store (\<open>events\<close>, indexed by reference) and the maps hold
  references. A task is the coroutine \<open>monitor_func(result_queue, target, stop_event)\<close>
  that \<open>create_task\<close> scheduled.
\<close>

record Task =
  task_target :: Target
  task_stop_event :: nat

text \<open>The gauge \<open>ACTIVE_TARGETS\<close> of core/metrics.py is written by the supervisor only.\<close>

record MonitorManager =
  tasks :: "(UUID \<times> Task) list"
  stop_events :: "(UUID \<times> nat) list"
  targets :: "(UUID \<times> Target) list"
  target_statuses :: "(UUID \<times> TargetStatus) list"
  events :: "bool list"
  ACTIVE_TARGETS :: int

definition MonitorManager_init :: MonitorManager where
  "MonitorManager_init =
     \<lparr>tasks = [], stop_events = [], targets = [], target_statuses = [],
      events = [], ACTIVE_TARGETS = 0\<rparr>"

definition get_target :: "MonitorManager \<Rightarrow> UUID \<Rightarrow> Target option" where
  "get_target self tid = map_of (targets self) tid"

definition get_active_count :: "MonitorManager \<Rightarrow> int" where
  "get_active_count self = int (length (tasks self))"

definition bump_status :: "TargetStatus \<Rightarrow> int \<Rightarrow> real \<Rightarrow> TargetStatus" where
  "bump_status status v ts =
     (let s1 = status\<lparr>check_count := check_count status + 1\<rparr>;
          s2 = s1\<lparr>last_check := Some ts\<rparr>;
          s3 = s2\<lparr>last_value := Some v\<rparr>
      in if v < 0 then s3\<lparr>error_count := error_count s3 + 1\<rparr> else s3)"

text \<open>
  \<open>update_target_status\<close>: a missing entry is created first; the status object is then
  mutated in place, that is, the entry of the map is replaced.
\<close>

definition update_target_status :: "MonitorManager \<Rightarrow> UUID \<Rightarrow> int \<Rightarrow> real \<Rightarrow> MonitorManager" where
  "update_target_status self tid v ts =
     (let sts = (if \<not> has_key (target_statuses self) tid
                 then AList.update tid TargetStatus_init (target_statuses self)
                 else target_statuses self);
          status = (case map_of sts tid of Some s \<Rightarrow> s | None \<Rightarrow> TargetStatus_init)
      in self\<lparr>target_statuses := AList.update tid (bump_status status v ts) sts\<rparr>)"

definition start_monitoring :: "MonitorManager \<Rightarrow> Target \<Rightarrow> MonitorManager" where
  "start_monitoring self target =
     (if has_key (tasks self) (uid target) then self
      else
        let stop_event = length (events self);
            task = \<lparr>task_target = target, task_stop_event = stop_event\<rparr>
        in self\<lparr>targets := AList.update (uid target) target (targets self),
                target_statuses :=
                  AList.update (uid target) TargetStatus_init (target_statuses self),
                events := events self @ [False],
                stop_events := AList.update (uid target) stop_event (stop_events self),
                tasks := AList.update (uid target) task (tasks self),
                ACTIVE_TARGETS := ACTIVE_TARGETS self + 1\<rparr>)"

definition stop_monitoring :: "MonitorManager \<Rightarrow> UUID \<Rightarrow> MonitorManager" where
  "stop_monitoring self tid =
     (if \<not> has_key (tasks self) tid then self
      else
        let m1 = (case map_of (stop_events self) tid of
                    Some ev \<Rightarrow>
                      self\<lparr>events := (events self)[ev := True],
                           stop_events := AList.delete tid (stop_events self)\<rparr>
                  | None \<Rightarrow> self);
            m2 = m1\<lparr>tasks := AList.delete tid (tasks m1)\<rparr>;
            m3 = (if has_key (targets m2) tid
                  then m2\<lparr>targets := AList.delete tid (targets m2)\<rparr> else m2);
            m4 = (if has_key (target_statuses m3) tid
                  then m3\<lparr>target_statuses := AList.delete tid (target_statuses m3)\<rparr>
                  else m3)
        in m4\<lparr>ACTIVE_TARGETS := ACTIVE_TARGETS m4 - 1\<rparr>)"

text \<open>\<open>stop_all\<close> iterates over a snapshot of the keys of \<open>tasks\<close>.\<close>

definition stop_all :: "MonitorManager \<Rightarrow> MonitorManager" where
  "stop_all self = foldl stop_monitoring self (map fst (tasks self))"

text \<open>
  The relationship invariant of the registry: the four maps of the supervisor have the
  same keys.
\<close>

definition registry_inv :: "MonitorManager \<Rightarrow> bool" where
  "registry_inv m =
     (set (map fst (targets m)) = set (map fst (tasks m)) \<and>
      set (map fst (target_statuses m)) = set (map fst (tasks m)) \<and>
      set (map fst (stop_events m)) = set (map fst (tasks m)))"

text \<open>
  The part of the invariant that every state has: \<open>targets\<close>, \<open>tasks\<close> and
  \<open>stop_events\<close> have the same keys, and each of them has a status.
\<close>

definition lock_step :: "MonitorManager \<Rightarrow> bool" where
  "lock_step m =
     (set (map fst (targets m)) = set (map fst (tasks m)) \<and>
      set (map fst (stop_events m)) = set (map fst (tasks m)) \<and>
      set (map fst (tasks m)) \<subseteq> set (map fst (target_statuses m)))"

text \<open>The operations of the supervisor, and a run of them.\<close>

datatype sup_op = Start Target | Stop UUID | StopAll | Update UUID int real

fun apply_op :: "MonitorManager \<Rightarrow> sup_op \<Rightarrow> MonitorManager" where
  "apply_op m (Start target) = start_monitoring m target"
| "apply_op m (Stop tid) = stop_monitoring m tid"
| "apply_op m StopAll = stop_all m"
| "apply_op m (Update tid v ts) = update_target_status m tid v ts"

definition run_ops :: "MonitorManager \<Rightarrow> sup_op list \<Rightarrow> MonitorManager" where
  "run_ops m ops = foldl apply_op m ops"

text \<open>The consumer applies the results it takes from the queue one after the other.\<close>

fun apply_results :: "MonitorManager \<Rightarrow> TargetResult list \<Rightarrow> MonitorManager" where
  "apply_results m [] = m"
| "apply_results m (r # rs) =
     apply_results (update_target_status m (target_id r) (result_value r) (timestamp r)) rs"

section \<open>Creation through the API (api/routes.py)\<close>

text \<open>
  \<open>add_target\<close>: the framework builds the \<open>TargetCreate\<close> from the request body and
  answers with a validation error before the handler runs when that fails; the handler
  builds the \<open>Target\<close> (with a new id) and starts it.
\<close>

definition add_target ::
  "MonitorManager \<Rightarrow> string \<Rightarrow> int \<Rightarrow> int \<Rightarrow> UUID \<Rightarrow> (exn + Target) \<times> MonitorManager" where
  "add_target manager n i t new_id =
     (case TargetCreate_init n i t of
        Inl e \<Rightarrow> (Inl e, manager)
      | Inr target_in \<Rightarrow>
          (case Target_init target_in new_id of
             Inl e \<Rightarrow> (Inl e, manager)
           | Inr target \<Rightarrow> (Inr target, start_monitoring manager target)))"

section \<open>The poller and the scheduler (core/monitoring.py)\<close>

text \<open>
  Float arithmetic is a parameter of the model. A \<open>float\<close> is a real number, and what
  the platform computes is given by \<open>to_float\<close> (the conversion of an \<open>int\<close>, with
  \<open>None\<close> where Python raises \<open>OverflowError\<close>, beyond the range of floats) and by
  \<open>fadd\<close>, \<open>fsub\<close> and \<open>fmul\<close> (sum, difference and product as the platform
  rounds them).
\<close>

record float_ops =
  to_float :: "int \<Rightarrow> real option"
  fadd :: "real \<Rightarrow> real \<Rightarrow> real"
  fsub :: "real \<Rightarrow> real \<Rightarrow> real"
  fmul :: "real \<Rightarrow> real \<Rightarrow> real"

text \<open>The float that the literal \<open>1.2\<close> denotes, and \<open>round\<close> (half to even).\<close>

definition float_1_2 :: real where
  "float_1_2 = 5404319552844595 / 4503599627370496"

definition py_round :: "real \<Rightarrow> int" where
  "py_round x =
     (let f = \<lfloor>x\<rfloor>; r = x - of_int f
      in if r < 1 / 2 then f else if 1 / 2 < r then f + 1 else if even f then f else f + 1)"

text \<open>
  \<open>random.randint(a, b)\<close> raises \<open>ValueError\<close> on an empty range; otherwise the
  entropy \<open>r\<close> picks one of the values from \<open>a\<close> to \<open>b\<close>.
\<close>

definition randint :: "int \<Rightarrow> int \<Rightarrow> nat \<Rightarrow> exn + int" where
  "randint a b r = (if b < a then Inl ValueError else Inr (a + int r mod (b - a + 1)))"

text \<open>
  What one call of \<open>poll\<close> draws from its environment: the two random draws, which
  timer the event loop serves first when the sleep and the timeout expire together,
  and whether the task is cancelled while it sleeps.
\<close>

record poll_env =
  sleep_draw :: nat
  value_draw :: nat
  timeout_first :: bool
  cancelled :: bool

definition timed_out :: "Target \<Rightarrow> poll_env \<Rightarrow> int \<Rightarrow> bool" where
  "timed_out target env d =
     (timeout target < d \<or> (timeout target = d \<and> timeout_first env))"

text \<open>
  The body of the \<open>try\<close> in \<open>poll\<close>. \<open>asyncio.timeout(target.timeout)\<close> adds the
  timeout to the clock and \<open>target.timeout * 1.2\<close> multiplies it with a float: both
  convert it. The sleep is the one point where the task waits: a cancellation arrives
  there as \<open>CancelledError\<close>, the timeout as \<open>TimeoutError\<close>.
\<close>

definition poll_body :: "float_ops \<Rightarrow> Target \<Rightarrow> poll_env \<Rightarrow> exn + int" where
  "poll_body fl target env =
     (case to_float fl (timeout target) of
        None \<Rightarrow> Inl OverflowError
      | Some tf \<Rightarrow>
          (case randint 1 (py_round (fmul fl tf float_1_2)) (sleep_draw env) of
             Inl e \<Rightarrow> Inl e
           | Inr d \<Rightarrow>
               if cancelled env then Inl CancelledError
               else if timed_out target env d then Inl TimeoutError
               else randint 0 100 (value_draw env)))"

definition poll :: "float_ops \<Rightarrow> Target \<Rightarrow> poll_env \<Rightarrow> exn + int" where
  "poll fl target env =
     (case poll_body fl target env of
        Inr v \<Rightarrow> Inr v
      | Inl e \<Rightarrow>
          if e = TimeoutError then Inr (- 1)
          else if is_Exception e then Inr (- 1)
          else Inl e)"


text \<open>
  \<open>monitor_stream\<close> before decoration: one poll, one result. The result is built from
  the id and the value only.
\<close>

definition monitor_stream ::
  "Target \<Rightarrow> (Target \<Rightarrow> 'e \<Rightarrow> exn + int) \<Rightarrow> 'e \<Rightarrow> exn + TargetResult list" where
  "monitor_stream target poll_func pe =
     (case poll_func target pe of
        Inl e \<Rightarrow> Inl e
      | Inr result \<Rightarrow> Inr [TargetResult_init (uid target) result])"

text \<open>
  What one iteration of the loop of \<open>periodic_task\<close> reads from its environment: the
  stop event at the loop test, the clock, whether the task is cancelled during the
  wait, the stop event after the wait, the environment of the poll, the stop event in
  the exception handler, and whether the task is cancelled during the pause there.
\<close>

record 'e cycle_env =
  stop_at_test :: bool
  now :: real
  cancel_in_wait :: bool
  stop_after_wait :: bool
  poll_in :: 'e
  stop_in_except :: bool
  cancel_in_backoff :: bool

text \<open>
  What one iteration does: \<open>deadline\<close> is \<open>next_run_time\<close> as the iteration finds it,
  \<open>delay\<close> the timeout of its wait, \<open>started\<close> the time at which that wait expires,
  \<open>emitted\<close> the items it yields, \<open>backoff\<close> whether it slept one second after an error.
\<close>

record cycle =
  deadline :: real
  delay :: real
  started :: real
  emitted :: "TargetResult list"
  backoff :: bool

datatype sched_exit = Stopped | Pending real | Raised exn

text \<open>
  \<open>next_run_time += interval\<close>: the interval is converted to a float and added. The
  statement is outside the \<open>try\<close> of the loop.
\<close>

definition advance :: "float_ops \<Rightarrow> Target \<Rightarrow> real \<Rightarrow> exn + real" where
  "advance fl target next_run_time =
     (case to_float fl (interval target) of
        None \<Rightarrow> Inl OverflowError
      | Some i \<Rightarrow> Inr (fadd fl next_run_time i))"

fun wrapper_loop ::
  "float_ops \<Rightarrow> Target \<Rightarrow> (Target \<Rightarrow> 'e \<Rightarrow> exn + int) \<Rightarrow> real \<Rightarrow> 'e cycle_env list \<Rightarrow>
   cycle list \<times> sched_exit" where
  "wrapper_loop fl target poll_func next_run_time [] = ([], Pending next_run_time)"
| "wrapper_loop fl target poll_func next_run_time (env # envs) =
     (if stop_at_test env then ([], Stopped)
      else
        let d = max 0 (fsub fl next_run_time (now env));
            c = \<lparr>deadline = next_run_time, delay = d, started = now env + d,
                 emitted = [], backoff = False\<rparr>
        in if cancel_in_wait env then ([c], Raised CancelledError)
           else if stop_after_wait env then ([c], Stopped)
           else
             (case monitor_stream target poll_func (poll_in env) of
                Inr ys \<Rightarrow>
                  (case advance fl target next_run_time of
                     Inl e \<Rightarrow> ([c\<lparr>emitted := ys\<rparr>], Raised e)
                   | Inr nrt \<Rightarrow>
                       (let (cs, ex) = wrapper_loop fl target poll_func nrt envs
                        in (c\<lparr>emitted := ys\<rparr> # cs, ex)))
              | Inl e \<Rightarrow>
                  if is_Exception e then
                    if \<not> stop_in_except env \<and> cancel_in_backoff env
                    then ([c\<lparr>backoff := True\<rparr>], Raised CancelledError)
                    else
                      (case advance fl target next_run_time of
                         Inl e' \<Rightarrow> ([c\<lparr>backoff := \<not> stop_in_except env\<rparr>], Raised e')
                       | Inr nrt \<Rightarrow>
                           (let (cs, ex) = wrapper_loop fl target poll_func nrt envs
                            in (c\<lparr>backoff := \<not> stop_in_except env\<rparr> # cs, ex)))
                  else ([c], Raised e)))"

text \<open>
  The decorated \<open>monitor_stream\<close>: \<open>next_run_time\<close> starts as the clock read on
  entry, \<open>start\<close>.
\<close>

definition wrapper ::
  "float_ops \<Rightarrow> Target \<Rightarrow> (Target \<Rightarrow> 'e \<Rightarrow> exn + int) \<Rightarrow> real \<Rightarrow> 'e cycle_env list \<Rightarrow>
   cycle list \<times> sched_exit" where
  "wrapper fl target poll_func start envs = wrapper_loop fl target poll_func start envs"


section \<open>The result pipeline (outputs.py)\<close>

text \<open>
  What lies in the queue is the dump of a \<open>TargetResult\<close>; \<open>model_validate\<close> gives
  the result back, and raises on anything else.
\<close>

datatype queue_item = Dumped TargetResult | Malformed

definition model_validate :: "queue_item \<Rightarrow> exn + TargetResult" where
  "model_validate x = (case x of Dumped r \<Rightarrow> Inr r | Malformed \<Rightarrow> Inl ValidationError)"

text \<open>\<open>asyncio.Queue\<close>: the items and the count of unfinished tasks.\<close>

record Queue =
  items :: "queue_item list"
  unfinished_tasks :: int

definition Queue_init :: Queue where
  "Queue_init = \<lparr>items = [], unfinished_tasks = 0\<rparr>"

definition qsize :: "Queue \<Rightarrow> int" where
  "qsize q = int (length (items q))"

definition put_nowait :: "Queue \<Rightarrow> queue_item \<Rightarrow> Queue" where
  "put_nowait q x = q\<lparr>items := items q @ [x], unfinished_tasks := unfinished_tasks q + 1\<rparr>"

definition get_nowait :: "Queue \<Rightarrow> (queue_item \<times> Queue) option" where
  "get_nowait q = (case items q of [] \<Rightarrow> None | x # xs \<Rightarrow> Some (x, q\<lparr>items := xs\<rparr>))"

definition task_done :: "Queue \<Rightarrow> exn + Queue" where
  "task_done q =
     (if unfinished_tasks q \<le> 0 then Inl ValueError
      else Inr (q\<lparr>unfinished_tasks := unfinished_tasks q - 1\<rparr>))"


text \<open>
  \<open>monitor\<close> puts every item of the stream into the queue.
\<close>

definition monitor ::
  "float_ops \<Rightarrow> Queue \<Rightarrow> Target \<Rightarrow> (Target \<Rightarrow> 'e \<Rightarrow> exn + int) \<Rightarrow> real \<Rightarrow>
   'e cycle_env list \<Rightarrow> Queue" where
  "monitor fl q target poll_func start envs =
     foldl put_nowait q
       (map Dumped (concat (map emitted (fst (wrapper fl target poll_func start envs)))))"

text \<open>Where the consumer loop of \<open>OutputProcessor.run\<close> stands.\<close>

datatype consumer = LoopTop | Awaiting | Exited | Crashed exn

text \<open>
  \<open>OutputProcessor\<close>: \<open>self.error_count\<close> is \<open>proc_error_count\<close> here. The counters
  and gauges of core/metrics.py that only the processor writes are fields, and so is
  the list of the calls that the output handler completed.
\<close>

record OutputProcessor =
  queue :: Queue
  monitor_manager :: MonitorManager
  processed_count :: int
  proc_error_count :: int
  stop_event :: bool
  consumer :: consumer
  handled :: "(TargetResult \<times> string) list"
  PROCESSED_MESSAGES :: int
  PROCESSING_ERRORS :: int
  QUEUE_SIZE :: int
  TARGET_VALUE :: "((string \<times> UUID) \<times> int) list"

definition OutputProcessor_init :: "Queue \<Rightarrow> MonitorManager \<Rightarrow> OutputProcessor" where
  "OutputProcessor_init q m =
     \<lparr>queue = q, monitor_manager = m, processed_count = 0, proc_error_count = 0,
      stop_event = False, consumer = LoopTop, handled = [],
      PROCESSED_MESSAGES = 0, PROCESSING_ERRORS = 0, QUEUE_SIZE = 0, TARGET_VALUE = []\<rparr>"

text \<open>
  What the collaborators do in one iteration: whether \<open>handler.handle\<close> raises, and
  whether setting the gauge \<open>TARGET_VALUE\<close> raises.
\<close>

record iter_env =
  handle_raises :: "exn option"
  metric_raises :: "exn option"

text \<open>
  The statements of the \<open>try\<close> block after the item is there. An exception leaves the
  block with the state as the statements before it made it.
\<close>

definition process_item ::
  "OutputProcessor \<Rightarrow> queue_item \<Rightarrow> iter_env \<Rightarrow> (exn \<times> OutputProcessor) + OutputProcessor" where
  "process_item self result env =
     (case model_validate result of
        Inl e \<Rightarrow> Inl (e, self)
      | Inr target_result \<Rightarrow>
          let target = get_target (monitor_manager self) (target_id target_result);
              target_name = (case target of Some t \<Rightarrow> name t | None \<Rightarrow> ''unknown'');
              p1 = self\<lparr>monitor_manager :=
                     update_target_status (monitor_manager self) (target_id target_result)
                       (result_value target_result) (timestamp target_result)\<rparr>
          in case handle_raises env of
               Some e \<Rightarrow> Inl (e, p1)
             | None \<Rightarrow>
                 let p2 = p1\<lparr>handled := handled p1 @ [(target_result, target_name)]\<rparr>;
                     p3 = p2\<lparr>processed_count := processed_count p2 + 1\<rparr>;
                     p4 = p3\<lparr>PROCESSED_MESSAGES := PROCESSED_MESSAGES p3 + 1\<rparr>
                 in case metric_raises env of
                      Some e \<Rightarrow> Inl (e, p4)
                    | None \<Rightarrow>
                        let p5 = p4\<lparr>TARGET_VALUE :=
                                   AList.update (target_name, target_id target_result)
                                     (result_value target_result) (TARGET_VALUE p4)\<rparr>
                        in case task_done (queue p5) of
                             Inl e \<Rightarrow> Inl (e, p5)
                           | Inr q \<Rightarrow> Inr (p5\<lparr>queue := q\<rparr>))"

text \<open>
  From the wait to the end of the iteration: the stop event ends the loop; with no
  item the consumer stays suspended; an \<open>Exception\<close> of the block is counted and the
  loop goes on; anything else leaves \<open>run\<close>. The wait and the block are one step: an
  item taken from the queue while the stop event is being set is not modelled.
\<close>

definition wait_and_process :: "OutputProcessor \<Rightarrow> iter_env \<Rightarrow> OutputProcessor" where
  "wait_and_process self env =
     (if stop_event self then self\<lparr>consumer := Exited\<rparr>
      else
        case get_nowait (queue self) of
          None \<Rightarrow> self\<lparr>consumer := Awaiting\<rparr>
        | Some (result, q) \<Rightarrow>
            (case process_item (self\<lparr>queue := q\<rparr>) result env of
               Inr p \<Rightarrow> p\<lparr>consumer := LoopTop\<rparr>
             | Inl (e, p) \<Rightarrow>
                 if is_Exception e
                 then p\<lparr>proc_error_count := proc_error_count p + 1,
                        PROCESSING_ERRORS := PROCESSING_ERRORS p + 1,
                        consumer := LoopTop\<rparr>
                 else p\<lparr>consumer := Crashed e\<rparr>))"

definition run_iteration :: "OutputProcessor \<Rightarrow> iter_env \<Rightarrow> OutputProcessor" where
  "run_iteration self env =
     (case consumer self of
        LoopTop \<Rightarrow>
          if stop_event self then self\<lparr>consumer := Exited\<rparr>
          else wait_and_process (self\<lparr>QUEUE_SIZE := qsize (queue self)\<rparr>) env
      | Awaiting \<Rightarrow> wait_and_process self env
      | Exited \<Rightarrow> self
      | Crashed e \<Rightarrow> self)"

text \<open>
  The pipeline as the event loop interleaves it: a producer puts an item, the
  orchestrator sets the stop event of the processor, or the consumer runs one iteration.
\<close>

datatype pipe_event = Put queue_item | SetStop | Iterate iter_env

fun pipeline_step :: "OutputProcessor \<Rightarrow> pipe_event \<Rightarrow> OutputProcessor" where
  "pipeline_step self (Put x) = self\<lparr>queue := put_nowait (queue self) x\<rparr>"
| "pipeline_step self SetStop = self\<lparr>stop_event := True\<rparr>"
| "pipeline_step self (Iterate env) = run_iteration self env"

definition pipeline :: "OutputProcessor \<Rightarrow> pipe_event list \<Rightarrow> OutputProcessor" where
  "pipeline self evs = foldl pipeline_step self evs"

text \<open>
  Whether the consumer left \<open>run\<close> through an exception, and whether the
  collaborators of an iteration raise instances of \<open>Exception\<close> only.
\<close>

fun is_Crashed :: "consumer \<Rightarrow> bool" where
  "is_Crashed (Crashed e) = True"
| "is_Crashed _ = False"

definition raises_Exceptions_only :: "iter_env \<Rightarrow> bool" where
  "raises_Exceptions_only env =
     ((case handle_raises env of None \<Rightarrow> True | Some e \<Rightarrow> is_Exception e) \<and>
      (case metric_raises env of None \<Rightarrow> True | Some e \<Rightarrow> is_Exception e))"

fun benign :: "pipe_event \<Rightarrow> bool" where
  "benign (Iterate env) = raises_Exceptions_only env"
| "benign _ = True"

text \<open>The state in which the consumer takes the first item of the queue.\<close>

definition item_taken :: "OutputProcessor \<Rightarrow> OutputProcessor" where
  "item_taken p =
     (let p1 = (if consumer p = LoopTop then p\<lparr>QUEUE_SIZE := qsize (queue p)\<rparr> else p)
      in p1\<lparr>queue := (queue p1)\<lparr>items := tl (items (queue p1))\<rparr>\<rparr>)"

text \<open>The unfinished tasks of the queue beyond the items that still lie in it.\<close>

definition backlog :: "OutputProcessor \<Rightarrow> int" where
  "backlog p = unfinished_tasks (queue p) - int (length (items (queue p)))"

text \<open>Concrete inputs for the closed theorems below.\<close>

definition web_target :: Target where
  "web_target = \<lparr>name = ''web'', interval = 10, timeout = 2, uid = 7\<rparr>"

definition web_clone :: Target where
  "web_clone = \<lparr>name = ''other'', interval = 3, timeout = 3, uid = 7\<rparr>"

definition removed_web :: MonitorManager where
  "removed_web = stop_monitoring (start_monitoring MonitorManager_init web_target) 7"

definition straggler :: MonitorManager where
  "straggler = update_target_status removed_web 7 42 3"

definition two_targets :: MonitorManager where
  "two_targets =
     start_monitoring (start_monitoring MonitorManager_init web_target)
       \<lparr>name = ''db'', interval = 5, timeout = 5, uid = 8\<rparr>"

text \<open>
  The results of a list that are for one target, and those of them that report an
  error (a negative value).
\<close>

definition for_target :: "UUID \<Rightarrow> TargetResult list \<Rightarrow> TargetResult list" where
  "for_target tid rs = filter (\<lambda>r. target_id r = tid) rs"

definition failures :: "UUID \<Rightarrow> TargetResult list \<Rightarrow> TargetResult list" where
  "failures tid rs = filter (\<lambda>r. target_id r = tid \<and> result_value r < 0) rs"

definition three_results :: "TargetResult list" where
  "three_results =
     [\<lparr>target_id = 7, result_value = 5, timestamp = 1\<rparr>,
      \<lparr>target_id = 8, result_value = - 1, timestamp = 2\<rparr>,
      \<lparr>target_id = 7, result_value = - 1, timestamp = 3\<rparr>,
      \<lparr>target_id = 7, result_value = 0, timestamp = 4\<rparr>]"

text \<open>
  Float operations that are exact, as the platform's are on the small integers of the
  inputs below; the conversion fails where the platform's does, from
  \<open>2 ^ 1024 - 2 ^ 970\<close> on.
\<close>

definition exact_floats :: float_ops where
  "exact_floats =
     \<lparr>to_float =
        (\<lambda>i. if \<bar>i\<bar> < 2 ^ 1024 - 2 ^ 970 then Some (real_of_int i) else None),
      fadd = (\<lambda>x y. x + y), fsub = (\<lambda>x y. x - y), fmul = (\<lambda>x y. x * y)\<rparr>"

definition quick_env :: poll_env where
  "quick_env = \<lparr>sleep_draw = 0, value_draw = 42, timeout_first = True, cancelled = False\<rparr>"



definition first_cycle :: "poll_env cycle_env" where
  "first_cycle =
     \<lparr>stop_at_test = False, now = 100, cancel_in_wait = False, stop_after_wait = False,
      poll_in = quick_env, stop_in_except = False, cancel_in_backoff = False\<rparr>"


definition cancel_iter :: iter_env where
  "cancel_iter = \<lparr>handle_raises = Some CancelledError, metric_raises = None\<rparr>"

definition ok_iter :: iter_env where
  "ok_iter = \<lparr>handle_raises = None, metric_raises = None\<rparr>"

definition faulty_iter :: iter_env where
  "faulty_iter = \<lparr>handle_raises = Some OSError, metric_raises = None\<rparr>"

definition two_queued :: OutputProcessor where
  "two_queued =
     pipeline (OutputProcessor_init Queue_init (start_monitoring MonitorManager_init web_target))
       [Put (Dumped \<lparr>target_id = 7, result_value = 5, timestamp = 0\<rparr>),
        Put (Dumped \<lparr>target_id = 7, result_value = 6, timestamp = 0\<rparr>)]"

section \<open>Properties of the supervisor\<close>

lemma keys_update: "fst ` set (AList.update k v d) = insert k (fst ` set d)"
  by (simp add: AList.dom_update)

lemma keys_delete: "fst ` set (AList.delete k d) = fst ` set d - {k}"
  by (induction d) auto

lemma has_key_map_of: "has_key d k \<longleftrightarrow> map_of d k \<noteq> None"
  by (simp add: has_key_def map_of_eq_None_iff)

lemma has_key_update: "has_key (AList.update k v d) k' \<longleftrightarrow> k' = k \<or> has_key d k'"
  by (auto simp: has_key_def AList.dom_update)

lemma start_monitoring_has_key: "has_key (tasks (start_monitoring m target)) (uid target)"
  by (simp add: start_monitoring_def Let_def has_key_update)

text \<open>
  C9: \<open>start_monitoring\<close> is idempotent per id. When the id of the target already
  has a task, the call returns the supervisor as it was (no map changes, the active
  count stays); so a second start with the same id, whatever the rest of the
  definition, changes nothing, and two starts on a new supervisor leave the active
  count at 1.
\<close>

theorem start_monitoring_idempotent:
  "(has_key (tasks m) (uid target) \<longrightarrow>
      start_monitoring m target = m \<and>
      get_active_count (start_monitoring m target) = get_active_count m) \<and>
   (uid target' = uid target \<longrightarrow>
      start_monitoring (start_monitoring m target) target' = start_monitoring m target) \<and>
   (uid target' = uid target \<longrightarrow>
      get_active_count
        (start_monitoring (start_monitoring MonitorManager_init target) target') = 1)"
proof (intro conjI impI)
  assume "has_key (tasks m) (uid target)"
  then show "start_monitoring m target = m"
    by (simp add: start_monitoring_def)
  then show "get_active_count (start_monitoring m target) = get_active_count m"
    by simp
next
  assume same: "uid target' = uid target"
  have again: "start_monitoring (start_monitoring m0 target) target' = start_monitoring m0 target"
    for m0
    using start_monitoring_has_key [of m0 target] same
    by (simp add: start_monitoring_def [of "start_monitoring m0 target" target'])
  show "start_monitoring (start_monitoring m target) target' = start_monitoring m target"
    by (rule again)
  have "get_active_count (start_monitoring MonitorManager_init target) = 1"
    by (simp add: start_monitoring_def MonitorManager_init_def has_key_def Let_def
        get_active_count_def)
  then show "get_active_count
      (start_monitoring (start_monitoring MonitorManager_init target) target') = 1"
    by (simp add: again)
qed

text \<open>
  The test \<open>test_duplicate_start_ignored\<close>, and a second start under the same id
  with another definition.
\<close>

theorem start_monitoring_idempotent_witness:
  "has_key (tasks (start_monitoring MonitorManager_init web_target)) (uid web_target) \<and>
   uid web_clone = uid web_target \<and>
   start_monitoring (start_monitoring MonitorManager_init web_target) web_target =
     start_monitoring MonitorManager_init web_target \<and>
   start_monitoring (start_monitoring MonitorManager_init web_target) web_clone =
     start_monitoring MonitorManager_init web_target \<and>
   get_active_count
     (start_monitoring (start_monitoring MonitorManager_init web_target) web_clone) = 1"
  using start_monitoring_idempotent
    [where m = "start_monitoring MonitorManager_init web_target"
       and target = web_target and target' = web_clone]
    start_monitoring_idempotent
    [where m = MonitorManager_init and target = web_target and target' = web_clone]
  by (simp add: start_monitoring_def MonitorManager_init_def has_key_def Let_def
      web_target_def web_clone_def)


lemma update_status_frame:
  "tasks (update_target_status m tid v ts) = tasks m \<and>
   stop_events (update_target_status m tid v ts) = stop_events m \<and>
   targets (update_target_status m tid v ts) = targets m \<and>
   events (update_target_status m tid v ts) = events m \<and>
   ACTIVE_TARGETS (update_target_status m tid v ts) = ACTIVE_TARGETS m"
  by (simp add: update_target_status_def Let_def)

lemma update_status_lookup:
  "map_of (target_statuses (update_target_status m tid v ts)) tid =
     Some (bump_status
       (case map_of (target_statuses m) tid of Some s \<Rightarrow> s | None \<Rightarrow> TargetStatus_init) v ts)"
  by (auto simp: update_target_status_def Let_def AList.update_conv' has_key_map_of
      split: option.splits)

lemma update_status_other:
  "k \<noteq> tid \<Longrightarrow>
   map_of (target_statuses (update_target_status m tid v ts)) k = map_of (target_statuses m) k"
  by (auto simp: update_target_status_def Let_def AList.update_conv' has_key_map_of
      split: option.splits)

lemma update_status_keys:
  "fst ` set (target_statuses (update_target_status m tid v ts)) =
   insert tid (fst ` set (target_statuses m))"
  by (auto simp: update_target_status_def Let_def keys_update has_key_def)

lemma update_absent: "\<not> has_key d k \<Longrightarrow> AList.update k v d = d @ [(k, v)]"
  by (induction d) (auto simp: has_key_def)

lemma update_appended:
  "\<not> has_key d k \<Longrightarrow> AList.update k v' (d @ [(k, v)]) = d @ [(k, v')]"
  by (induction d) (auto simp: has_key_def)

lemma update_status_fresh:
  assumes "\<not> has_key (target_statuses m) tid"
  shows "target_statuses (update_target_status m tid v ts) =
     target_statuses m @ [(tid, bump_status TargetStatus_init v ts)]"
proof -
  let ?sts = "AList.update tid TargetStatus_init (target_statuses m)"
  have sts: "?sts = target_statuses m @ [(tid, TargetStatus_init)]"
    using assms by (rule update_absent)
  have "map_of ?sts tid = Some TargetStatus_init"
    by (simp add: AList.update_conv')
  then have "target_statuses (update_target_status m tid v ts) =
      AList.update tid (bump_status TargetStatus_init v ts) ?sts"
    using assms by (simp add: update_target_status_def Let_def)
  then show ?thesis
    using assms by (simp add: sts update_appended)
qed

lemma bump_status_fields:
  "bump_status s v ts =
     s\<lparr>last_check := Some ts, last_value := Some v, check_count := check_count s + 1,
       error_count := error_count s + (if v < 0 then 1 else 0)\<rparr>"
  by (simp add: bump_status_def Let_def)

text \<open>
  C1, as the code has it: for an id with no entry in \<open>tasks\<close> and \<open>targets\<close>,
  \<open>update_target_status\<close> raises nothing and leaves \<open>tasks\<close>, \<open>stop_events\<close> and
  \<open>targets\<close> as they were, but it is not a no-op: the status map then holds, for that
  id, the status it had there (a new one when there was none) with the result counted,
  and the other entries are unchanged. When the id had no status, the map grows by
  one entry: one check, the given timestamp and value, one error iff the value is
  negative.
\<close>

theorem update_status_unregistered:
  assumes "\<not> has_key (tasks m) tid" and "\<not> has_key (targets m) tid"
  shows "tasks (update_target_status m tid v ts) = tasks m \<and>
         stop_events (update_target_status m tid v ts) = stop_events m \<and>
         targets (update_target_status m tid v ts) = targets m \<and>
         map_of (target_statuses (update_target_status m tid v ts)) tid =
           Some (bump_status
             (case map_of (target_statuses m) tid of Some s \<Rightarrow> s | None \<Rightarrow> TargetStatus_init)
             v ts) \<and>
         (\<forall>k. k \<noteq> tid \<longrightarrow>
            map_of (target_statuses (update_target_status m tid v ts)) k =
            map_of (target_statuses m) k) \<and>
         (\<not> has_key (target_statuses m) tid \<longrightarrow>
            target_statuses (update_target_status m tid v ts) =
              target_statuses m @
                [(tid, \<lparr>last_check = Some ts, last_value = Some v, check_count = 1,
                        error_count = (if v < 0 then 1 else 0)\<rparr>)])"
  using update_status_frame [of m tid v ts] update_status_lookup [of m tid v ts]
    update_status_other [of _ tid m v ts] update_status_fresh [of m tid v ts]
  by (simp add: bump_status_fields TargetStatus_init_def)

text \<open>A result that arrives after its target was stopped.\<close>

theorem update_status_unregistered_witness:
  "\<not> has_key (tasks removed_web) 7 \<and> \<not> has_key (targets removed_web) 7 \<and>
   \<not> has_key (target_statuses removed_web) 7 \<and>
   tasks (update_target_status removed_web 7 (- 1) 3) = tasks removed_web \<and>
   target_statuses (update_target_status removed_web 7 (- 1) 3) =
     [(7, \<lparr>last_check = Some 3, last_value = Some (- 1), check_count = 1, error_count = 1\<rparr>)]"
  using update_status_unregistered [of removed_web 7 "- 1" 3]
  by (simp add: removed_web_def stop_monitoring_def start_monitoring_def
      MonitorManager_init_def has_key_def Let_def web_target_def)

text \<open>
  C1 as stated fails: after start and stop of a target, an update for its id changes
  the supervisor (the empty status map gets an entry).
\<close>

theorem update_status_noop_counterexample:
  "\<not> has_key (tasks removed_web) 7 \<and> \<not> has_key (targets removed_web) 7 \<and>
   update_target_status removed_web 7 42 3 \<noteq> removed_web \<and>
   target_statuses removed_web = [] \<and>
   target_statuses (update_target_status removed_web 7 42 3) =
     [(7, \<lparr>last_check = Some 3, last_value = Some 42, check_count = 1, error_count = 0\<rparr>)]"
  by (simp add: removed_web_def stop_monitoring_def start_monitoring_def
      MonitorManager_init_def has_key_def Let_def web_target_def
      update_target_status_def TargetStatus_init_def bump_status_def)


lemma registry_inv_init: "registry_inv MonitorManager_init"
  by (simp add: registry_inv_def MonitorManager_init_def)

lemma start_inv: "registry_inv m \<Longrightarrow> registry_inv (start_monitoring m t)"
  by (auto simp: registry_inv_def start_monitoring_def Let_def keys_update)

lemma stop_inv: "registry_inv m \<Longrightarrow> registry_inv (stop_monitoring m tid)"
  unfolding registry_inv_def stop_monitoring_def Let_def has_key_def
  by (auto simp: keys_delete map_of_eq_None_iff split: option.splits)

lemma foldl_stop_inv: "registry_inv m \<Longrightarrow> registry_inv (foldl stop_monitoring m ks)"
  by (induction ks arbitrary: m) (simp_all add: stop_inv)

lemma stop_all_inv: "registry_inv m \<Longrightarrow> registry_inv (stop_all m)"
  by (simp add: stop_all_def foldl_stop_inv)

lemma update_inv:
  "registry_inv m \<Longrightarrow> has_key (tasks m) tid \<Longrightarrow>
   registry_inv (update_target_status m tid v ts)"
  by (auto simp: registry_inv_def update_status_frame update_status_keys has_key_def)

lemma lock_step_init: "lock_step MonitorManager_init"
  by (simp add: lock_step_def MonitorManager_init_def)

lemma registry_inv_lock_step: "registry_inv m \<Longrightarrow> lock_step m"
  by (simp add: registry_inv_def lock_step_def)

lemma start_lock_step: "lock_step m \<Longrightarrow> lock_step (start_monitoring m t)"
  by (auto simp: lock_step_def start_monitoring_def Let_def keys_update)

lemma stop_lock_step: "lock_step m \<Longrightarrow> lock_step (stop_monitoring m tid)"
  unfolding lock_step_def stop_monitoring_def Let_def has_key_def
  by (auto simp: keys_delete map_of_eq_None_iff split: option.splits)

lemma foldl_stop_lock_step: "lock_step m \<Longrightarrow> lock_step (foldl stop_monitoring m ks)"
  by (induction ks arbitrary: m) (simp_all add: stop_lock_step)

lemma stop_all_lock_step: "lock_step m \<Longrightarrow> lock_step (stop_all m)"
  by (simp add: stop_all_def foldl_stop_lock_step)

lemma update_lock_step: "lock_step m \<Longrightarrow> lock_step (update_target_status m tid v ts)"
  using update_status_frame [of m tid v ts] update_status_keys [of m tid v ts]
  by (auto simp: lock_step_def)

lemma apply_op_lock_step: "lock_step m \<Longrightarrow> lock_step (apply_op m op)"
  by (cases op)
     (simp_all add: start_lock_step stop_lock_step stop_all_lock_step update_lock_step)

lemma run_ops_lock_step: "lock_step m \<Longrightarrow> lock_step (run_ops m ops)"
  unfolding run_ops_def
  by (induction ops arbitrary: m) (simp_all add: apply_op_lock_step)

text \<open>
  C2, as the code has it: every operation of the supervisor (\<open>start_monitoring\<close>,
  \<open>stop_monitoring\<close>, \<open>stop_all\<close>, \<open>update_target_status\<close>), and so every run of
  them, keeps the keys of \<open>targets\<close>, \<open>tasks\<close> and \<open>stop_events\<close> equal and keeps a
  status for each of them. The status map can hold more keys: \<open>update_target_status\<close>
  adds the id it is called with. Where the status map has the same keys as the others,
  \<open>start_monitoring\<close>, \<open>stop_monitoring\<close> and \<open>stop_all\<close> keep that, and so does
  \<open>update_target_status\<close> for an id that has a task.
\<close>

theorem registry_lock_step:
  assumes "lock_step m"
  shows "lock_step (start_monitoring m target) \<and>
         lock_step (stop_monitoring m tid) \<and>
         lock_step (stop_all m) \<and>
         lock_step (update_target_status m tid v ts) \<and>
         lock_step (run_ops m ops) \<and>
         fst ` set (target_statuses (update_target_status m tid v ts)) =
           insert tid (fst ` set (target_statuses m)) \<and>
         (registry_inv m \<longrightarrow>
            registry_inv (start_monitoring m target) \<and>
            registry_inv (stop_monitoring m tid) \<and>
            registry_inv (stop_all m) \<and>
            (has_key (tasks m) tid \<longrightarrow> registry_inv (update_target_status m tid v ts)))"
  using assms start_lock_step [of m target] stop_lock_step [of m tid] stop_all_lock_step [of m]
    update_lock_step [of m tid v ts] run_ops_lock_step [of m ops]
    update_status_keys [of m tid v ts]
    start_inv [of m target] stop_inv [of m tid] stop_all_inv [of m]
    update_inv [of m tid v ts]
  by blast


text \<open>
  The supervisor after a late result for a stopped target, where the status map has a
  key of its own, and a supervisor with two running targets.
\<close>

theorem registry_lock_step_witness:
  "lock_step straggler \<and> \<not> registry_inv straggler \<and>
   lock_step (start_monitoring straggler web_target) \<and>
   lock_step (stop_monitoring straggler 7) \<and>
   lock_step (stop_all straggler) \<and>
   lock_step (update_target_status straggler 9 4 3) \<and>
   lock_step (run_ops straggler [Start web_target, Update 9 1 2, Stop 7]) \<and>
   registry_inv two_targets \<and> has_key (tasks two_targets) 7 \<and>
   registry_inv (stop_all two_targets) \<and>
   registry_inv (update_target_status two_targets 7 (- 1) 3)"
proof -
  have s: "straggler =
      \<lparr>tasks = [], stop_events = [], targets = [],
       target_statuses =
         [(7, \<lparr>last_check = Some 3, last_value = Some 42, check_count = 1, error_count = 0\<rparr>)],
       events = [True], ACTIVE_TARGETS = 0\<rparr>"
    by (simp add: straggler_def removed_web_def stop_monitoring_def start_monitoring_def
        update_target_status_def bump_status_def TargetStatus_init_def
        MonitorManager_init_def has_key_def Let_def web_target_def)
  have ls: "lock_step straggler" and ni: "\<not> registry_inv straggler"
    by (simp_all add: s lock_step_def registry_inv_def)
  have inv: "registry_inv two_targets"
    by (simp add: two_targets_def start_monitoring_def MonitorManager_init_def has_key_def
        Let_def web_target_def registry_inv_def)
  have k7: "has_key (tasks two_targets) 7"
    by (simp add: two_targets_def start_monitoring_def MonitorManager_init_def has_key_def
        Let_def web_target_def)
  show ?thesis
    using registry_lock_step
      [OF ls, where target = web_target and tid = 7 and v = 4 and ts = 3
         and ops = "[Start web_target, Update 9 1 2, Stop 7]"]
      registry_lock_step
      [OF ls, where target = web_target and tid = 9 and v = 4 and ts = 3 and ops = "[]"]
      registry_lock_step
      [OF registry_inv_lock_step [OF inv], where target = web_target and tid = 7
         and v = "- 1" and ts = 3 and ops = "[]"]
      ls ni inv k7
    by blast
qed

text \<open>
  C2 as stated fails: on a new supervisor, whose maps are all empty, an update gives
  the status map a key that the other maps do not have.
\<close>

theorem registry_lock_step_counterexample:
  "registry_inv MonitorManager_init \<and>
   \<not> registry_inv (update_target_status MonitorManager_init 9 5 3) \<and>
   fst ` set (target_statuses (update_target_status MonitorManager_init 9 5 3)) = {9} \<and>
   fst ` set (targets (update_target_status MonitorManager_init 9 5 3)) = {} \<and>
   fst ` set (tasks (update_target_status MonitorManager_init 9 5 3)) = {}"
  by (simp add: update_target_status_def MonitorManager_init_def has_key_def Let_def
      registry_inv_def)

lemma apply_results_counts:
  "map_of (target_statuses m) tid = Some s \<Longrightarrow>
   \<exists>s'. map_of (target_statuses (apply_results m rs)) tid = Some s' \<and>
     check_count s' = check_count s + int (length (for_target tid rs)) \<and>
     error_count s' = error_count s + int (length (failures tid rs))"
proof (induction rs arbitrary: m s)
  case Nil
  then show ?case by (simp add: for_target_def failures_def)
next
  case (Cons r rs)
  let ?m = "update_target_status m (target_id r) (result_value r) (timestamp r)"
  show ?case
  proof (cases "target_id r = tid")
    case True
    have "map_of (target_statuses ?m) tid =
        Some (bump_status s (result_value r) (timestamp r))"
      using Cons.prems True update_status_lookup [of m tid "result_value r" "timestamp r"]
      by simp
    from Cons.IH [OF this] obtain s' where
      "map_of (target_statuses (apply_results ?m rs)) tid = Some s'"
      "check_count s' = check_count (bump_status s (result_value r) (timestamp r)) +
         int (length (for_target tid rs))"
      "error_count s' = error_count (bump_status s (result_value r) (timestamp r)) +
         int (length (failures tid rs))"
      by blast
    with True show ?thesis
      by (simp add: for_target_def failures_def bump_status_fields)
  next
    case False
    then have "map_of (target_statuses ?m) tid = Some s"
      using Cons.prems by (simp add: update_status_other)
    from Cons.IH [OF this] False show ?thesis
      by (simp add: for_target_def failures_def)
  qed
qed

lemma failures_le: "length (failures tid rs) \<le> length (for_target tid rs)"
  unfolding failures_def for_target_def
  by (induction rs) auto

text \<open>
  C5: for a target with a status \<open>s\<close>, one call of \<open>update_target_status\<close> adds 1 to
  \<open>check_count\<close>, sets \<open>last_check\<close> and \<open>last_value\<close> to the given timestamp and
  value, and adds 1 to \<open>error_count\<close> iff the value is negative. After any list of
  processed results, of which N are for the target and E of those negative, the counts
  have grown by N and E; \<open>error_count \<le> check_count\<close> is kept, and from the status
  that \<open>start_monitoring\<close> creates the counts are N and E.
\<close>

theorem status_counts:
  assumes "map_of (target_statuses m) tid = Some s"
  shows "map_of (target_statuses (update_target_status m tid v ts)) tid =
           Some (s\<lparr>last_check := Some ts, last_value := Some v,
                   check_count := check_count s + 1,
                   error_count := error_count s + (if v < 0 then 1 else 0)\<rparr>) \<and>
         (\<exists>s'. map_of (target_statuses (apply_results m rs)) tid = Some s' \<and>
            check_count s' = check_count s + int (length (for_target tid rs)) \<and>
            error_count s' = error_count s + int (length (failures tid rs)) \<and>
            (error_count s \<le> check_count s \<longrightarrow> error_count s' \<le> check_count s') \<and>
            (s = TargetStatus_init \<longrightarrow>
               check_count s' = int (length (for_target tid rs)) \<and>
               error_count s' = int (length (failures tid rs)) \<and>
               error_count s' \<le> check_count s'))"
proof -
  from apply_results_counts [OF assms, of rs] obtain s' where
    s': "map_of (target_statuses (apply_results m rs)) tid = Some s'"
      "check_count s' = check_count s + int (length (for_target tid rs))"
      "error_count s' = error_count s + int (length (failures tid rs))"
    by blast
  have le: "int (length (failures tid rs)) \<le> int (length (for_target tid rs))"
    using failures_le [of tid rs] by simp
  have one: "map_of (target_statuses (update_target_status m tid v ts)) tid =
      Some (s\<lparr>last_check := Some ts, last_value := Some v,
              check_count := check_count s + 1,
              error_count := error_count s + (if v < 0 then 1 else 0)\<rparr>)"
    using assms update_status_lookup [of m tid v ts] by (simp add: bump_status_fields)
  have many: "(error_count s \<le> check_count s \<longrightarrow> error_count s' \<le> check_count s') \<and>
      (s = TargetStatus_init \<longrightarrow>
         check_count s' = int (length (for_target tid rs)) \<and>
         error_count s' = int (length (failures tid rs)) \<and>
         error_count s' \<le> check_count s')"
    using s'(2,3) le by (auto simp: TargetStatus_init_def)
  from one s' many show ?thesis by blast
qed

text \<open>Four results, three of them for target 7, one of these negative.\<close>

theorem status_counts_witness:
  "map_of (target_statuses two_targets) 7 = Some TargetStatus_init \<and>
   map_of (target_statuses (update_target_status two_targets 7 (- 1) 3)) 7 =
     Some \<lparr>last_check = Some 3, last_value = Some (- 1), check_count = 1, error_count = 1\<rparr> \<and>
   (\<exists>s'. map_of (target_statuses (apply_results two_targets three_results)) 7 = Some s' \<and>
      check_count s' = 3 \<and> error_count s' = 1)"
proof -
  have st: "map_of (target_statuses two_targets) 7 = Some TargetStatus_init"
    by (simp add: two_targets_def start_monitoring_def MonitorManager_init_def has_key_def
        Let_def web_target_def)
  have n: "length (for_target 7 three_results) = 3" "length (failures 7 three_results) = 1"
    by (simp_all add: three_results_def for_target_def failures_def)
  show ?thesis
    using status_counts [OF st, of "- 1" 3 three_results] st n
    by (auto simp: TargetStatus_init_def)
qed

section \<open>Properties of creation\<close>

text \<open>
  C8: a creation request with \<open>interval < timeout\<close> is rejected with a validation
  error, and the supervisor is left as it was; a request with
  \<open>interval \<ge> timeout \<ge> 1\<close> succeeds: the target is returned and handed to
  \<open>start_monitoring\<close>, which registers it under its new id.
\<close>

theorem add_target_validation:
  "(i < t \<longrightarrow>
      TargetCreate_init n i t = Inl ValidationError \<and>
      add_target m n i t new_id = (Inl ValidationError, m)) \<and>
   (1 \<le> t \<and> t \<le> i \<longrightarrow>
      TargetCreate_init n i t = Inr \<lparr>name = n, interval = i, timeout = t\<rparr> \<and>
      add_target m n i t new_id =
        (Inr \<lparr>name = n, interval = i, timeout = t, uid = new_id\<rparr>,
         start_monitoring m \<lparr>name = n, interval = i, timeout = t, uid = new_id\<rparr>)) \<and>
   (1 \<le> t \<and> t \<le> i \<and> \<not> has_key (tasks m) new_id \<longrightarrow>
      get_target (snd (add_target m n i t new_id)) new_id =
        Some \<lparr>name = n, interval = i, timeout = t, uid = new_id\<rparr>)"
  by (simp add: add_target_def TargetCreate_init_def Target_init_def check_interval_def
      get_target_def start_monitoring_def Let_def AList.update_conv')

text \<open>Interval 1 with timeout 2 is rejected; interval 2 with timeout 2 is accepted.\<close>

theorem add_target_validation_witness:
  "(1::int) < 2 \<and>
   add_target MonitorManager_init ''a'' 1 2 9 = (Inl ValidationError, MonitorManager_init) \<and>
   (1::int) \<le> 2 \<and> (2::int) \<le> 2 \<and> \<not> has_key (tasks MonitorManager_init) (9::UUID) \<and>
   fst (add_target MonitorManager_init ''a'' 2 2 9) =
     Inr \<lparr>name = ''a'', interval = 2, timeout = 2, uid = 9\<rparr> \<and>
   get_target (snd (add_target MonitorManager_init ''a'' 2 2 9)) 9 =
     Some \<lparr>name = ''a'', interval = 2, timeout = 2, uid = 9\<rparr>"
proof -
  have new: "\<not> has_key (tasks MonitorManager_init) (9::UUID)"
    by (simp add: MonitorManager_init_def has_key_def)
  have rej: "add_target MonitorManager_init ''a'' 1 2 9 = (Inl ValidationError, MonitorManager_init)"
    using add_target_validation [of 1 2 "''a''" MonitorManager_init 9] by simp
  have acc1: "fst (add_target MonitorManager_init ''a'' 2 2 9) =
        Inr \<lparr>name = ''a'', interval = 2, timeout = 2, uid = 9\<rparr>"
    using add_target_validation
      [of 2 2 "''a''" MonitorManager_init 9, THEN conjunct2, THEN conjunct1]
    by simp
  have acc2: "get_target (snd (add_target MonitorManager_init ''a'' 2 2 9)) 9 =
        Some \<lparr>name = ''a'', interval = 2, timeout = 2, uid = 9\<rparr>"
    using add_target_validation
      [of 2 2 "''a''" MonitorManager_init 9, THEN conjunct2, THEN conjunct2] new
    by simp
  from new rej acc1 acc2 show ?thesis by simp
qed

section \<open>Properties of the poller and the scheduler\<close>

lemma randint_reading: "\<exists>v. randint 0 100 r = Inr v \<and> 0 \<le> v \<and> v \<le> 100"
  by (simp add: randint_def)

lemma poll_body_cases:
  "poll_body fl target env = Inl OverflowError \<or>
   poll_body fl target env = Inl ValueError \<or>
   poll_body fl target env = Inl TimeoutError \<or>
   (poll_body fl target env = Inl CancelledError \<and> cancelled env) \<or>
   (\<exists>v. poll_body fl target env = Inr v \<and> 0 \<le> v \<and> v \<le> 100 \<and> \<not> cancelled env)"
  using randint_reading [of "value_draw env"]
  by (auto simp: poll_body_def randint_def split: option.splits sum.splits if_splits)

lemma poll_body_cancelled:
  "poll_body fl target env = Inl CancelledError \<Longrightarrow> cancelled env"
  using poll_body_cases [of fl target env] by auto












lemma emitted_timestamp_default:
  "c \<in> set (fst (wrapper_loop fl target pf nrt envs)) \<Longrightarrow> r \<in> set (emitted c) \<Longrightarrow>
   timestamp r = 0"
proof (induction envs arbitrary: nrt)
  case Nil
  then show ?case by simp
next
  case (Cons env envs)
  show ?case
  proof (cases "advance fl target nrt")
    case (Inl e)
    with Cons.prems show ?thesis
      by (auto simp: Let_def monitor_stream_def TargetResult_init_def
          split: sum.splits if_splits)
  next
    case (Inr nrt')
    with Cons.prems Cons.IH [of nrt'] show ?thesis
      by (auto simp: Let_def split_beta monitor_stream_def TargetResult_init_def
          split: sum.splits if_splits)
  qed
qed

text \<open>
  C4 on the code: a sample taken at time 100 lies in the queue with the timestamp 0,
  the default of the field, and once the consumer has processed it the \<open>last_check\<close>
  of the target is 0.
\<close>

theorem last_check_not_production_time:
  "now first_cycle = 100 \<and>
   items (monitor exact_floats Queue_init web_target (poll exact_floats) 100 [first_cycle]) =
     [Dumped \<lparr>target_id = 7, result_value = 42, timestamp = 0\<rparr>] \<and>
   map_of
     (target_statuses (monitor_manager
        (pipeline
           (OutputProcessor_init
              (monitor exact_floats Queue_init web_target (poll exact_floats) 100 [first_cycle])
              (start_monitoring MonitorManager_init web_target))
           [Iterate ok_iter]))) 7 =
     Some \<lparr>last_check = Some 0, last_value = Some 42, check_count = 1, error_count = 0\<rparr>"
proof -
  have q: "monitor exact_floats Queue_init web_target (poll exact_floats) 100 [first_cycle] =
      \<lparr>items = [Dumped \<lparr>target_id = 7, result_value = 42, timestamp = 0\<rparr>],
       unfinished_tasks = 1\<rparr>"
    by (simp add: monitor_def Queue_init_def put_nowait_def wrapper_def advance_def
        monitor_stream_def poll_def poll_body_def randint_def py_round_def float_1_2_def
        timed_out_def TargetResult_init_def exact_floats_def web_target_def first_cycle_def
        quick_env_def Let_def)
  show ?thesis
    unfolding q
    by (simp add: pipeline_def run_iteration_def wait_and_process_def process_item_def
        OutputProcessor_init_def get_nowait_def model_validate_def qsize_def task_done_def
        get_target_def update_target_status_def bump_status_def TargetStatus_init_def
        start_monitoring_def MonitorManager_init_def has_key_def Let_def web_target_def
        ok_iter_def first_cycle_def)
qed

section \<open>Properties of the result pipeline\<close>

lemma process_item_raised:
  "process_item p x env = Inl (e, p') \<Longrightarrow> raises_Exceptions_only env \<Longrightarrow> is_Exception e"
  by (auto simp: process_item_def Let_def task_done_def model_validate_def
      raises_Exceptions_only_def
      split: queue_item.splits option.splits sum.splits if_splits)

lemma process_item_Inl_frame:
  "process_item p x env = Inl (e, p') \<Longrightarrow>
   queue p' = queue p \<and> proc_error_count p' = proc_error_count p \<and>
   PROCESSING_ERRORS p' = PROCESSING_ERRORS p \<and> stop_event p' = stop_event p"
  by (auto simp: process_item_def Let_def task_done_def model_validate_def
      split: queue_item.splits option.splits sum.splits if_splits)

lemma process_item_Inr_frame:
  "process_item p x env = Inr p' \<Longrightarrow>
   items (queue p') = items (queue p) \<and>
   unfinished_tasks (queue p') = unfinished_tasks (queue p) - 1 \<and>
   proc_error_count p' = proc_error_count p \<and>
   PROCESSING_ERRORS p' = PROCESSING_ERRORS p \<and> stop_event p' = stop_event p"
  by (auto simp: process_item_def Let_def task_done_def model_validate_def
      split: queue_item.splits option.splits sum.splits if_splits)

lemma run_iteration_takes:
  assumes "consumer p = LoopTop \<or> consumer p = Awaiting" and "\<not> stop_event p"
    and "items (queue p) = x # rest"
  shows "run_iteration p env =
     (case process_item (item_taken p) x env of
        Inr p' \<Rightarrow> p'\<lparr>consumer := LoopTop\<rparr>
      | Inl (e, p') \<Rightarrow>
          if is_Exception e
          then p'\<lparr>proc_error_count := proc_error_count p' + 1,
                  PROCESSING_ERRORS := PROCESSING_ERRORS p' + 1,
                  consumer := LoopTop\<rparr>
          else p'\<lparr>consumer := Crashed e\<rparr>)"
  using assms
  by (auto simp: run_iteration_def wait_and_process_def get_nowait_def item_taken_def)

lemma item_taken_fields:
  "proc_error_count (item_taken p) = proc_error_count p \<and>
   PROCESSING_ERRORS (item_taken p) = PROCESSING_ERRORS p \<and>
   stop_event (item_taken p) = stop_event p \<and>
   monitor_manager (item_taken p) = monitor_manager p \<and>
   processed_count (item_taken p) = processed_count p \<and>
   handled (item_taken p) = handled p \<and>
   items (queue (item_taken p)) = tl (items (queue p)) \<and>
   unfinished_tasks (queue (item_taken p)) = unfinished_tasks (queue p)"
  by (simp add: item_taken_def Let_def)

lemma run_iteration_no_crash:
  "\<not> is_Crashed (consumer p) \<Longrightarrow> raises_Exceptions_only env \<Longrightarrow>
   \<not> is_Crashed (consumer (run_iteration p env))"
  by (auto simp: run_iteration_def wait_and_process_def
      split: consumer.splits option.splits sum.splits prod.splits
      dest: process_item_raised)

lemma pipeline_step_no_crash:
  "\<not> is_Crashed (consumer p) \<Longrightarrow> benign ev \<Longrightarrow>
   \<not> is_Crashed (consumer (pipeline_step p ev))"
  by (cases ev) (simp_all add: run_iteration_no_crash)

lemma pipeline_no_crash:
  "\<not> is_Crashed (consumer p) \<Longrightarrow> \<forall>ev \<in> set evs. benign ev \<Longrightarrow>
   \<not> is_Crashed (consumer (pipeline p evs))"
  unfolding pipeline_def
  by (induction evs arbitrary: p) (simp_all add: pipeline_step_no_crash)

lemma run_iteration_exit:
  "consumer p \<noteq> Exited \<Longrightarrow> consumer (run_iteration p env) = Exited \<Longrightarrow> stop_event p"
  by (auto simp: run_iteration_def wait_and_process_def
      split: consumer.splits option.splits sum.splits prod.splits if_splits)

lemma crashed_stays:
  "is_Crashed (consumer p) \<Longrightarrow> pipeline p (map Iterate envs) = p"
  unfolding pipeline_def
  by (induction envs) (auto simp: run_iteration_def split: consumer.splits)

text \<open>
  C7, as the code has it: when the statements of the \<open>try\<close> block raise an exception
  for an item (from the validation of the item, the output handler, the metrics or the
  queue) and the exception is an instance of \<open>Exception\<close>, the iteration ends with the
  error counter and the error metric one higher, the item gone from the queue, and the
  consumer back at the top of its loop, not stopped; and whatever the producers, the
  orchestrator and the sink do afterwards, as long as the sink raises instances of
  \<open>Exception\<close> only, the consumer never leaves its loop through an exception. An
  exception that is not an instance of \<open>Exception\<close> is not caught: it leaves \<open>run\<close>, the
  error counter and the error metric are as before, and the consumer takes no further
  item.
\<close>

theorem item_fault_is_counted:
  assumes "consumer p = LoopTop \<or> consumer p = Awaiting" and "\<not> stop_event p"
    and "items (queue p) = x # rest"
    and "process_item (item_taken p) x env = Inl (e, p')"
  shows "(is_Exception e \<longrightarrow>
            run_iteration p env =
              p'\<lparr>proc_error_count := proc_error_count p + 1,
                 PROCESSING_ERRORS := PROCESSING_ERRORS p + 1, consumer := LoopTop\<rparr> \<and>
            proc_error_count (run_iteration p env) = proc_error_count p + 1 \<and>
            PROCESSING_ERRORS (run_iteration p env) = PROCESSING_ERRORS p + 1 \<and>
            consumer (run_iteration p env) = LoopTop \<and>
            \<not> stop_event (run_iteration p env) \<and>
            items (queue (run_iteration p env)) = rest \<and>
            ((\<forall>ev \<in> set evs. benign ev) \<longrightarrow>
               \<not> is_Crashed (consumer (pipeline (run_iteration p env) evs)))) \<and>
         (\<not> is_Exception e \<longrightarrow>
            run_iteration p env = p'\<lparr>consumer := Crashed e\<rparr> \<and>
            proc_error_count (run_iteration p env) = proc_error_count p \<and>
            PROCESSING_ERRORS (run_iteration p env) = PROCESSING_ERRORS p \<and>
            items (queue (run_iteration p env)) = rest \<and>
            pipeline (run_iteration p env) (map Iterate envs) = run_iteration p env)"
proof (intro conjI impI)
  from process_item_Inl_frame [OF assms(4)] item_taken_fields [of p]
  have fr: "queue p' = queue (item_taken p)" "proc_error_count p' = proc_error_count p"
    "PROCESSING_ERRORS p' = PROCESSING_ERRORS p" "stop_event p' = stop_event p"
    by simp_all
  have rest: "items (queue p') = rest"
    using fr(1) item_taken_fields [of p] assms(3) by simp
  {
    assume ex: "is_Exception e"
    show run: "run_iteration p env =
        p'\<lparr>proc_error_count := proc_error_count p + 1,
           PROCESSING_ERRORS := PROCESSING_ERRORS p + 1, consumer := LoopTop\<rparr>"
      using run_iteration_takes [OF assms(1-3), of env] assms(4) ex fr by simp
    show "proc_error_count (run_iteration p env) = proc_error_count p + 1"
      and "PROCESSING_ERRORS (run_iteration p env) = PROCESSING_ERRORS p + 1"
      and "consumer (run_iteration p env) = LoopTop"
      and "items (queue (run_iteration p env)) = rest"
      using rest by (simp_all add: run)
    show "\<not> stop_event (run_iteration p env)"
      using fr(4) assms(2) by (simp add: run)
    have nc: "\<not> is_Crashed (consumer (run_iteration p env))"
      by (simp add: run)
    {
      assume "\<forall>ev \<in> set evs. benign ev"
      with nc show "\<not> is_Crashed (consumer (pipeline (run_iteration p env) evs))"
        by (rule pipeline_no_crash)
    }
  }
  {
    assume nex: "\<not> is_Exception e"
    show run: "run_iteration p env = p'\<lparr>consumer := Crashed e\<rparr>"
      using run_iteration_takes [OF assms(1-3), of env] assms(4) nex by simp
    show "proc_error_count (run_iteration p env) = proc_error_count p"
      and "PROCESSING_ERRORS (run_iteration p env) = PROCESSING_ERRORS p"
      and "items (queue (run_iteration p env)) = rest"
      using fr rest by (simp_all add: run)
    have "is_Crashed (consumer (run_iteration p env))"
      by (simp add: run)
    then show "pipeline (run_iteration p env) (map Iterate envs) = run_iteration p env"
      by (rule crashed_stays)
  }
qed

text \<open>
  Two queued items; the handler raises \<open>OSError\<close> for the first, and in a second run
  \<open>CancelledError\<close>.
\<close>

theorem item_fault_is_counted_witness:
  "(consumer two_queued = LoopTop \<or> consumer two_queued = Awaiting) \<and>
   \<not> stop_event two_queued \<and>
   items (queue two_queued) =
     [Dumped \<lparr>target_id = 7, result_value = 5, timestamp = 0\<rparr>,
      Dumped \<lparr>target_id = 7, result_value = 6, timestamp = 0\<rparr>] \<and>
   is_Exception OSError \<and> benign (Iterate ok_iter) \<and>
   proc_error_count (run_iteration two_queued faulty_iter) = 1 \<and>
   PROCESSING_ERRORS (run_iteration two_queued faulty_iter) = 1 \<and>
   consumer (run_iteration two_queued faulty_iter) = LoopTop \<and>
   items (queue (run_iteration two_queued faulty_iter)) =
     [Dumped \<lparr>target_id = 7, result_value = 6, timestamp = 0\<rparr>] \<and>
   \<not> is_Crashed (consumer (pipeline (run_iteration two_queued faulty_iter) [Iterate ok_iter])) \<and>
   \<not> is_Exception CancelledError \<and>
   consumer (run_iteration two_queued cancel_iter) = Crashed CancelledError \<and>
   proc_error_count (run_iteration two_queued cancel_iter) = 0"
proof -
  have q: "two_queued =
      (OutputProcessor_init Queue_init (start_monitoring MonitorManager_init web_target))
        \<lparr>queue :=
           \<lparr>items = [Dumped \<lparr>target_id = 7, result_value = 5, timestamp = 0\<rparr>,
                     Dumped \<lparr>target_id = 7, result_value = 6, timestamp = 0\<rparr>],
            unfinished_tasks = 2\<rparr>\<rparr>"
    by (simp add: two_queued_def pipeline_def OutputProcessor_init_def Queue_init_def
        put_nowait_def)
  have a1: "consumer two_queued = LoopTop \<or> consumer two_queued = Awaiting"
    and a2: "\<not> stop_event two_queued"
    and a3: "items (queue two_queued) =
       Dumped \<lparr>target_id = 7, result_value = 5, timestamp = 0\<rparr> #
       [Dumped \<lparr>target_id = 7, result_value = 6, timestamp = 0\<rparr>]"
    by (simp_all add: q OutputProcessor_init_def)
  have a4: "process_item (item_taken two_queued)
        (Dumped \<lparr>target_id = 7, result_value = 5, timestamp = 0\<rparr>) faulty_iter =
      Inl (OSError,
        (item_taken two_queued)\<lparr>monitor_manager :=
          update_target_status (monitor_manager (item_taken two_queued)) 7 5 0\<rparr>)"
    by (simp add: process_item_def model_validate_def faulty_iter_def Let_def)
  have a4': "process_item (item_taken two_queued)
        (Dumped \<lparr>target_id = 7, result_value = 5, timestamp = 0\<rparr>) cancel_iter =
      Inl (CancelledError,
        (item_taken two_queued)\<lparr>monitor_manager :=
          update_target_status (monitor_manager (item_taken two_queued)) 7 5 0\<rparr>)"
    by (simp add: process_item_def model_validate_def cancel_iter_def Let_def)
  have a5: "is_Exception OSError" and a5': "\<not> is_Exception CancelledError" by simp_all
  have b: "\<forall>ev \<in> set [Iterate ok_iter]. benign ev"
    by (simp add: raises_Exceptions_only_def ok_iter_def)
  have pe: "proc_error_count two_queued = 0" "PROCESSING_ERRORS two_queued = 0"
    by (simp_all add: q OutputProcessor_init_def)
  have caught: "proc_error_count (run_iteration two_queued faulty_iter) = 1 \<and>
      PROCESSING_ERRORS (run_iteration two_queued faulty_iter) = 1 \<and>
      consumer (run_iteration two_queued faulty_iter) = LoopTop \<and>
      items (queue (run_iteration two_queued faulty_iter)) =
        [Dumped \<lparr>target_id = 7, result_value = 6, timestamp = 0\<rparr>] \<and>
      \<not> is_Crashed
          (consumer (pipeline (run_iteration two_queued faulty_iter) [Iterate ok_iter]))"
    using item_fault_is_counted
      [OF a1 a2 a3 a4, of "[Iterate ok_iter]" "[]", THEN conjunct1, THEN mp, OF a5,
        THEN conjunct2] b pe
    by simp
  have passed: "consumer (run_iteration two_queued cancel_iter) = Crashed CancelledError \<and>
      proc_error_count (run_iteration two_queued cancel_iter) = 0"
    using item_fault_is_counted
      [OF a1 a2 a3 a4', of "[]" "[]", THEN conjunct2, THEN mp, OF a5', THEN conjunct2]
      item_fault_is_counted
      [OF a1 a2 a3 a4', of "[]" "[]", THEN conjunct2, THEN mp, OF a5', THEN conjunct1] pe
    by simp
  from a1 a2 a3 a5 a5' b caught passed show ?thesis by simp
qed

text \<open>
  C7 as stated fails: when the handler raises \<open>CancelledError\<close> for the first of two
  queued items, the consumer leaves \<open>run\<close>; the error counter and the error metric stay
  at 0, and the second item stays in the queue, unprocessed, whatever iterations follow.
\<close>

theorem uncaught_fault_counterexample:
  "handle_raises cancel_iter = Some CancelledError \<and>
   consumer (run_iteration two_queued cancel_iter) = Crashed CancelledError \<and>
   proc_error_count (run_iteration two_queued cancel_iter) = 0 \<and>
   PROCESSING_ERRORS (run_iteration two_queued cancel_iter) = 0 \<and>
   items (queue (pipeline (run_iteration two_queued cancel_iter) [Iterate ok_iter, Iterate ok_iter])) =
     [Dumped \<lparr>target_id = 7, result_value = 6, timestamp = 0\<rparr>] \<and>
   processed_count
     (pipeline (run_iteration two_queued cancel_iter) [Iterate ok_iter, Iterate ok_iter]) = 0"
  by (simp add: two_queued_def pipeline_def OutputProcessor_init_def Queue_init_def
      put_nowait_def run_iteration_def wait_and_process_def get_nowait_def qsize_def
      process_item_def model_validate_def cancel_iter_def ok_iter_def Let_def)

lemma pipeline_step_backlog: "backlog p \<le> backlog (pipeline_step p ev)"
proof (cases ev)
  case (Put x)
  then show ?thesis by (simp add: backlog_def put_nowait_def)
next
  case SetStop
  then show ?thesis by (simp add: backlog_def)
next
  case (Iterate env)
  have "backlog p \<le> backlog (run_iteration p env)"
    by (auto simp: backlog_def run_iteration_def wait_and_process_def get_nowait_def
        split: consumer.splits list.splits sum.splits prod.splits
        dest!: process_item_Inl_frame process_item_Inr_frame)
  with Iterate show ?thesis by simp
qed

lemma pipeline_backlog: "backlog p \<le> backlog (pipeline p evs)"
  unfolding pipeline_def
proof (induction evs arbitrary: p)
  case Nil
  then show ?case by simp
next
  case (Cons ev evs)
  from pipeline_step_backlog [of p ev] Cons.IH [of "pipeline_step p ev"] show ?case
    by simp
qed

lemma pipeline_backlog_init:
  "0 \<le> backlog (pipeline (OutputProcessor_init Queue_init m) evs)"
  using pipeline_backlog [of "OutputProcessor_init Queue_init m" evs]
  by (simp add: backlog_def OutputProcessor_init_def Queue_init_def)




end
